theory Spec2Isabelle
  imports Complex_Main "HOL-Library.Log_Nat"
begin

section \<open>Python values and errors\<close>

text \<open>
  The module \<^verbatim>\<open>paddleslim/prune/auto_pruner.py\<close> computes with Python floats
  (IEEE 754 binary64) and unbounded Python ints.  A float is modelled by its exact
  rational value, or one of the three special values.  The sign of a zero is not kept:
  no operation of the module observes it (\<^verbatim>\<open>int(-0.0)\<close> is \<^verbatim>\<open>0\<close>, both zeros
  are falsy and compare equal, and a division by either zero raises).
\<close>

datatype pyfloat = Finite rat | PosInf | NegInf | NaN

datatype pyval = PNone | PInt int | PFloat pyfloat | PStr string | PList "pyval list"

datatype error =
    AssertionError
  | TypeError
  | ValueError
  | OverflowError
  | ZeroDivisionError
  | AttributeError string
  | KeyError string
  | NameError string

subsection \<open>Rounding to binary64\<close>

definition pow2 :: "int \<Rightarrow> rat" where
  "pow2 k = (if 0 \<le> k then 2 ^ nat k else 1 / 2 ^ nat (- k))"

text \<open>\<open>ilog2 a\<close> is the binary exponent of a positive rational: \<open>2^e \<le> a < 2^(e+1)\<close>.\<close>

definition ilog2 :: "rat \<Rightarrow> int" where
  "ilog2 a = (case quotient_of a of (n, d) \<Rightarrow>
     (let k = bitlen n - bitlen d in if pow2 k \<le> a then k else k - 1))"

definition round_half_even :: "rat \<Rightarrow> int" where
  "round_half_even x = (let f = \<lfloor>x\<rfloor>; d = x - of_int f in
     if d < 1 / 2 then f else if 1 / 2 < d then f + 1
     else if even f then f else f + 1)"

text \<open>
  Round to nearest, ties to even, on a 53-bit significand.  Below \<open>2^-1022\<close> the
  spacing stays \<open>2^-1074\<close> (subnormal numbers); a result of magnitude \<open>2^1024\<close> or
  more is an infinity.
\<close>

definition round_double :: "rat \<Rightarrow> pyfloat" where
  "round_double q = (if q = 0 then Finite 0 else
     (let a = \<bar>q\<bar>; e = max (ilog2 a) (- 1022) - 52;
          m = round_half_even (a / pow2 e); r = of_int m * pow2 e
      in if 2 ^ 1024 \<le> r then (if q < 0 then NegInf else PosInf)
         else Finite (if q < 0 then - r else r)))"

subsection \<open>Float and int operations of Python\<close>

text \<open>\<^verbatim>\<open>x / y\<close> on floats: a zero divisor raises, whatever the dividend is.\<close>

fun float_truediv :: "pyfloat \<Rightarrow> pyfloat \<Rightarrow> error + pyfloat" where
  "float_truediv x (Finite b) =
     (if b = 0 then Inl ZeroDivisionError
      else Inr (case x of
                  Finite a \<Rightarrow> round_double (a / b)
                | PosInf \<Rightarrow> (if 0 < b then PosInf else NegInf)
                | NegInf \<Rightarrow> (if 0 < b then NegInf else PosInf)
                | NaN \<Rightarrow> NaN))"
| "float_truediv (Finite a) PosInf = Inr (Finite 0)"
| "float_truediv (Finite a) NegInf = Inr (Finite 0)"
| "float_truediv x y = Inr NaN"

fun float_mul :: "pyfloat \<Rightarrow> pyfloat \<Rightarrow> pyfloat" where
  "float_mul (Finite a) (Finite b) = round_double (a * b)"
| "float_mul NaN y = NaN"
| "float_mul x NaN = NaN"
| "float_mul (Finite a) PosInf = (if a = 0 then NaN else if 0 < a then PosInf else NegInf)"
| "float_mul (Finite a) NegInf = (if a = 0 then NaN else if 0 < a then NegInf else PosInf)"
| "float_mul PosInf (Finite b) = (if b = 0 then NaN else if 0 < b then PosInf else NegInf)"
| "float_mul NegInf (Finite b) = (if b = 0 then NaN else if 0 < b then NegInf else PosInf)"
| "float_mul PosInf PosInf = PosInf"
| "float_mul PosInf NegInf = NegInf"
| "float_mul NegInf PosInf = NegInf"
| "float_mul NegInf NegInf = PosInf"

fun float_sub :: "pyfloat \<Rightarrow> pyfloat \<Rightarrow> pyfloat" where
  "float_sub (Finite a) (Finite b) = round_double (a - b)"
| "float_sub NaN y = NaN"
| "float_sub x NaN = NaN"
| "float_sub PosInf PosInf = NaN"
| "float_sub NegInf NegInf = NaN"
| "float_sub PosInf y = PosInf"
| "float_sub NegInf y = NegInf"
| "float_sub x PosInf = NegInf"
| "float_sub x NegInf = PosInf"

text \<open>An int operand of a float operation is converted first; an int too large raises.\<close>

definition int_to_float :: "int \<Rightarrow> error + pyfloat" where
  "int_to_float i = (case round_double (of_int i) of
       Finite r \<Rightarrow> Inr (Finite r)
     | _ \<Rightarrow> Inl OverflowError)"

text \<open>\<^verbatim>\<open>int(x)\<close> of a float truncates toward zero.\<close>

fun py_int :: "pyfloat \<Rightarrow> error + int" where
  "py_int (Finite q) = Inr (if 0 \<le> q then \<lfloor>q\<rfloor> else \<lceil>q\<rceil>)"
| "py_int PosInf = Inl OverflowError"
| "py_int NegInf = Inl OverflowError"
| "py_int NaN = Inl ValueError"

text \<open>\<^verbatim>\<open>x / y\<close> with a float right operand, as in \<^verbatim>\<open>ratio / 0.01\<close>.\<close>

fun py_truediv_float :: "pyval \<Rightarrow> pyfloat \<Rightarrow> error + pyfloat" where
  "py_truediv_float (PFloat x) y = float_truediv x y"
| "py_truediv_float (PInt i) y =
     (case int_to_float i of Inl e \<Rightarrow> Inl e | Inr x \<Rightarrow> float_truediv x y)"
| "py_truediv_float v y = Inl TypeError"

text \<open>\<^verbatim>\<open>x - y\<close> and \<^verbatim>\<open>x * y\<close> on numbers (the operands the module gives them).\<close>

fun py_sub :: "pyval \<Rightarrow> pyval \<Rightarrow> error + pyval" where
  "py_sub (PInt a) (PInt b) = Inr (PInt (a - b))"
| "py_sub (PInt a) (PFloat y) =
     (case int_to_float a of Inl e \<Rightarrow> Inl e | Inr x \<Rightarrow> Inr (PFloat (float_sub x y)))"
| "py_sub (PFloat x) (PInt b) =
     (case int_to_float b of Inl e \<Rightarrow> Inl e | Inr y \<Rightarrow> Inr (PFloat (float_sub x y)))"
| "py_sub (PFloat x) (PFloat y) = Inr (PFloat (float_sub x y))"
| "py_sub v w = Inl TypeError"

fun py_mul :: "pyval \<Rightarrow> pyval \<Rightarrow> error + pyval" where
  "py_mul (PInt a) (PInt b) = Inr (PInt (a * b))"
| "py_mul (PInt a) (PFloat y) =
     (case int_to_float a of Inl e \<Rightarrow> Inl e | Inr x \<Rightarrow> Inr (PFloat (float_mul x y)))"
| "py_mul (PFloat x) (PInt b) =
     (case int_to_float b of Inl e \<Rightarrow> Inl e | Inr y \<Rightarrow> Inr (PFloat (float_mul x y)))"
| "py_mul (PFloat x) (PFloat y) = Inr (PFloat (float_mul x y))"
| "py_mul v w = Inl TypeError"

text \<open>\<^verbatim>\<open>i < y\<close> for an int \<open>i\<close>: Python compares an int with a float exactly.\<close>

fun py_int_lt :: "int \<Rightarrow> pyval \<Rightarrow> error + bool" where
  "py_int_lt i (PInt j) = Inr (i < j)"
| "py_int_lt i (PFloat (Finite q)) = Inr (of_int i < q)"
| "py_int_lt i (PFloat PosInf) = Inr True"
| "py_int_lt i (PFloat NegInf) = Inr False"
| "py_int_lt i (PFloat NaN) = Inr False"
| "py_int_lt i v = Inl TypeError"

fun truthy :: "pyval \<Rightarrow> bool" where
  "truthy PNone = False"
| "truthy (PInt i) = (i \<noteq> 0)"
| "truthy (PFloat x) = (x \<noteq> Finite 0)"
| "truthy (PStr s) = (s \<noteq> [])"
| "truthy (PList xs) = (xs \<noteq> [])"

section \<open>Token encoding\<close>

text \<open>The float that the literal \<^verbatim>\<open>0.01\<close> denotes: \<^verbatim>\<open>0x1.47ae147ae147bp-7\<close>.\<close>

definition STEP :: rat where
  "STEP = 5764607523034235 / 2 ^ 59"

text \<open>One element of the comprehension \<^verbatim>\<open>[int(ratio / 0.01) for ratio in ratios]\<close>.\<close>

definition ratio2token :: "pyval \<Rightarrow> error + int" where
  "ratio2token ratio =
     (case py_truediv_float ratio (Finite STEP) of Inl e \<Rightarrow> Inl e | Inr x \<Rightarrow> py_int x)"

fun each :: "('a \<Rightarrow> error + 'b) \<Rightarrow> 'a list \<Rightarrow> error + 'b list" where
  "each f [] = Inr []"
| "each f (x # xs) =
     (case f x of Inl e \<Rightarrow> Inl e
      | Inr y \<Rightarrow> (case each f xs of Inl e \<Rightarrow> Inl e | Inr ys \<Rightarrow> Inr (y # ys)))"

text \<open>
  \<^verbatim>\<open>_ratios2tokens\<close>.  Its argument is iterated: a list gives its elements, a string
  its characters (a character cannot be divided), anything else is not iterable.
\<close>

fun ratios2tokens :: "pyval \<Rightarrow> error + int list" where
  "ratios2tokens (PList ratios) = each ratio2token ratios"
| "ratios2tokens (PStr s) = (if s = [] then Inr [] else Inl TypeError)"
| "ratios2tokens v = Inl TypeError"

text \<open>One element of \<^verbatim>\<open>[token * 0.01 for token in tokens]\<close>, for an int token.\<close>

definition token2ratio :: "int \<Rightarrow> error + pyfloat" where
  "token2ratio token =
     (case int_to_float token of Inl e \<Rightarrow> Inl e | Inr x \<Rightarrow> Inr (float_mul x (Finite STEP)))"

definition tokens2ratios :: "int list \<Rightarrow> error + pyfloat list" where
  "tokens2ratios tokens = each token2ratio tokens"

text \<open>\<^verbatim>\<open>_get_range_table\<close>: both assertions, then both encodings, in this order.\<close>

fun is_list_or_float :: "pyval \<Rightarrow> bool" where
  "is_list_or_float (PList xs) = True"
| "is_list_or_float (PFloat x) = True"
| "is_list_or_float v = False"

fun as_list :: "pyval \<Rightarrow> pyval" where
  "as_list (PList xs) = PList xs"
| "as_list v = PList [v]"

definition get_range_table :: "pyval \<Rightarrow> pyval \<Rightarrow> error + (int list \<times> int list)" where
  "get_range_table min_ratios max_ratios =
     (if \<not> is_list_or_float min_ratios then Inl AssertionError
      else if \<not> is_list_or_float max_ratios then Inl AssertionError
      else (case ratios2tokens (as_list min_ratios) of Inl e \<Rightarrow> Inl e
            | Inr min_tokens \<Rightarrow>
              (case ratios2tokens (as_list max_ratios) of Inl e \<Rightarrow> Inl e
               | Inr max_tokens \<Rightarrow> Inr (min_tokens, max_tokens))))"

section \<open>The pruner object and its collaborators\<close>

text \<open>
  The names bound at module level by the imports and assignments of the file.  A name
  used in a method that is neither a local of the method, nor in this list, nor a Python
  builtin, raises \<^verbatim>\<open>NameError\<close> when the expression is evaluated.  (Neither
  \<^verbatim>\<open>latency\<close> nor \<^verbatim>\<open>_program\<close> is a builtin.)
\<close>

definition module_names :: "string list" where
  "module_names = [''socket'', ''logging'', ''np'', ''fluid'', ''Pruner'', ''VarWrapper'',
     ''OpWrapper'', ''GraphWrapper'', ''SAController'', ''get_logger'', ''flops'',
     ''ControllerServer'', ''ControllerClient'', ''__all__'', ''_logger'', ''AutoPruner'']"

definition resolve_name :: "string \<Rightarrow> error + unit" where
  "resolve_name n = (if n \<in> set module_names then Inr () else Inl (NameError n))"

text \<open>
  The arguments of \<^verbatim>\<open>SAController(...)\<close> and \<^verbatim>\<open>ControllerServer(...)\<close>, classes
  of other modules: the objects are represented by what the constructor is given.  The
  sixth argument of \<^verbatim>\<open>SAController\<close> is the bound method \<^verbatim>\<open>self._constrain_func\<close>,
  which is \<open>constrain_func\<close> below.
\<close>

record sa_controller =
  sa_range_table :: "int list \<times> int list"
  sa_reduce_rate :: pyval
  sa_init_temperature :: pyval
  sa_max_try_number :: pyval
  sa_init_tokens :: "int list"

record controller_server =
  cs_controller :: sa_controller
  cs_address :: "pyval \<times> pyval"
  cs_max_client_num :: pyval
  cs_search_steps :: pyval
  cs_key :: string
  cs_started :: bool

text \<open>
  What the module calls and does not define: \<^verbatim>\<open>flops\<close>, \<^verbatim>\<open>Pruner.prune\<close> (with
  \<^verbatim>\<open>only_graph=True\<close>, and with a \<^verbatim>\<open>param_backup\<close> dict that it fills),
  \<^verbatim>\<open>socket.gethostbyname(socket.gethostname())\<close>, the server's \<^verbatim>\<open>ip()\<close> and
  \<^verbatim>\<open>port()\<close>, and the client's constructor, \<^verbatim>\<open>next_tokens()\<close> and
  \<^verbatim>\<open>update(tokens, score)\<close>.  They are parameters; each is taken to return.
  A scope maps a variable name to its tensor; a dict of tensors is a list of items; a
  token vector is a list of ints.
\<close>

record ('p, 't, 'pl, 'c) env =
  flops :: "'p \<Rightarrow> int"
  pruner_prune_graph :: "'p \<Rightarrow> (string \<rightharpoonup> 't) \<Rightarrow> string list \<Rightarrow> pyfloat list \<Rightarrow> 'pl \<Rightarrow> 'p"
  pruner_prune :: "'p \<Rightarrow> (string \<rightharpoonup> 't) \<Rightarrow> string list \<Rightarrow> pyfloat list \<Rightarrow> 'pl
                   \<Rightarrow> (string \<times> 't) list \<Rightarrow> 'p \<times> (string \<rightharpoonup> 't) \<times> (string \<times> 't) list"
  host_ip :: string
  server_ip :: "controller_server \<Rightarrow> pyval"
  server_port :: "controller_server \<Rightarrow> pyval"
  mk_client :: "pyval \<Rightarrow> pyval \<Rightarrow> string \<Rightarrow> 'c"
  next_tokens :: "'c \<Rightarrow> int list \<times> 'c"
  update :: "'c \<Rightarrow> int list \<Rightarrow> pyval \<Rightarrow> 'c"

record ('p, 't, 'pl) init_args =
  arg_program :: 'p
  arg_scope :: "string \<rightharpoonup> 't"
  arg_place :: 'pl
  arg_params :: "string list"
  arg_init_ratios :: pyval
  arg_pruned_flops :: pyval
  arg_pruned_latency :: pyval
  arg_server_addr :: "pyval \<times> pyval"
  arg_init_temperature :: pyval
  arg_reduce_rate :: pyval
  arg_max_try_number :: pyval
  arg_max_client_num :: pyval
  arg_search_steps :: pyval
  arg_max_ratios :: pyval
  arg_min_ratios :: pyval
  arg_key :: string
  arg_is_server :: bool

text \<open>
  The attributes of an \<^verbatim>\<open>AutoPruner\<close>.  \<^verbatim>\<open>_base_flops\<close> and
  \<^verbatim>\<open>_current_ratios\<close> are assigned on some paths only: they are options, and
  reading a missing one raises \<^verbatim>\<open>AttributeError\<close>.
\<close>

record ('p, 't, 'pl, 'c) autopruner =
  program :: 'p
  scope :: "string \<rightharpoonup> 't"
  place :: 'pl
  params :: "string list"
  init_ratios :: pyval
  pruned_flops :: pyval
  pruned_latency :: pyval
  reduce_rate :: pyval
  init_temperature :: pyval
  max_try_number :: pyval
  is_server :: bool
  range_table :: "int list \<times> int list"
  base_flops :: "int option"
  controller_server :: controller_server
  controller_client :: 'c
  iter :: int
  param_backup :: "(string \<times> 't) list"
  current_ratios :: "pyfloat list option"

text \<open>\<^verbatim>\<open>_get_host_ip\<close>.\<close>

definition get_host_ip :: "('p, 't, 'pl, 'c) env \<Rightarrow> pyval" where
  "get_host_ip E = PStr (host_ip E)"

text \<open>\<^verbatim>\<open>_get_init_ratios\<close>: the body is \<^verbatim>\<open>pass\<close>, so a call returns \<^verbatim>\<open>None\<close>.\<close>

definition get_init_ratios :: "'p \<Rightarrow> string list \<Rightarrow> pyval \<Rightarrow> pyval \<Rightarrow> pyval" where
  "get_init_ratios prog ps pf pl = PNone"

text \<open>
  The statement \<^verbatim>\<open>self._init_ratios = self._get_init_ratios(self, _program, ...)\<close>:
  the arguments are evaluated before the call, and \<^verbatim>\<open>_program\<close> is looked up as a
  global name.  Were the name bound, the bound method would receive six arguments for its
  five parameters, which is a \<^verbatim>\<open>TypeError\<close>.
\<close>

definition call_get_init_ratios :: "string list \<Rightarrow> pyval \<Rightarrow> pyval \<Rightarrow> error + pyval" where
  "call_get_init_ratios ps pf pl =
     (case resolve_name ''_program'' of Inl e \<Rightarrow> Inl e | Inr u \<Rightarrow> Inl TypeError)"

text \<open>
  \<^verbatim>\<open>AutoPruner.__init__\<close>, statement by statement: the range table, the base FLOPs
  when \<^verbatim>\<open>pruned_flops\<close> is truthy, the call \<^verbatim>\<open>latency(program)\<close> when
  \<^verbatim>\<open>pruned_latency\<close> is truthy (it starts with the lookup of the name), the initial
  ratios and their tokens, the controller, the host, the server (started when
  \<^verbatim>\<open>is_server\<close>) and the client.
\<close>

definition AutoPruner_init ::
  "('p, 't, 'pl, 'c) env \<Rightarrow> ('p, 't, 'pl) init_args \<Rightarrow> error + ('p, 't, 'pl, 'c) autopruner" where
  "AutoPruner_init E a =
     (case get_range_table (arg_min_ratios a) (arg_max_ratios a) of Inl e \<Rightarrow> Inl e
      | Inr rt \<Rightarrow>
     (let bf = (if truthy (arg_pruned_flops a) then Some (flops E (arg_program a)) else None) in
     (case (if truthy (arg_pruned_latency a) then resolve_name ''latency'' else Inr ()) of
        Inl e \<Rightarrow> Inl e
      | Inr u \<Rightarrow>
     (case (if arg_init_ratios a = PNone
            then call_get_init_ratios (arg_params a) (arg_pruned_flops a) (arg_pruned_latency a)
            else Inr (arg_init_ratios a)) of
        Inl e \<Rightarrow> Inl e
      | Inr ir \<Rightarrow>
     (case ratios2tokens ir of Inl e \<Rightarrow> Inl e
      | Inr init_tokens \<Rightarrow>
     (let controller = \<lparr>sa_range_table = rt, sa_reduce_rate = arg_reduce_rate a,
            sa_init_temperature = arg_init_temperature a,
            sa_max_try_number = arg_max_try_number a, sa_init_tokens = init_tokens\<rparr>;
          ip = (if fst (arg_server_addr a) = PNone \<or> fst (arg_server_addr a) = PStr []
                then get_host_ip E else fst (arg_server_addr a));
          server = \<lparr>cs_controller = controller, cs_address = (ip, snd (arg_server_addr a)),
            cs_max_client_num = arg_max_client_num a, cs_search_steps = arg_search_steps a,
            cs_key = arg_key a, cs_started = arg_is_server a\<rparr>
      in Inr \<lparr>program = arg_program a, scope = arg_scope a, place = arg_place a,
              params = arg_params a, init_ratios = ir, pruned_flops = arg_pruned_flops a,
              pruned_latency = arg_pruned_latency a, reduce_rate = arg_reduce_rate a,
              init_temperature = arg_init_temperature a,
              max_try_number = arg_max_try_number a, is_server = arg_is_server a,
              range_table = rt, base_flops = bf, controller_server = server,
              controller_client = mk_client E (server_ip E server) (server_port E server) (arg_key a),
              iter = 0, param_backup = [], current_ratios = None\<rparr>))))))"

text \<open>\<^verbatim>\<open>_constrain_func\<close>.\<close>

definition constrain_func ::
  "('p, 't, 'pl, 'c) env \<Rightarrow> ('p, 't, 'pl, 'c) autopruner \<Rightarrow> int list \<Rightarrow> error + bool" where
  "constrain_func E s tokens =
     (case tokens2ratios tokens of Inl e \<Rightarrow> Inl e
      | Inr ratios \<Rightarrow>
     (let pruned_program = pruner_prune_graph E (program s) (scope s) (params s) ratios (place s);
          f = flops E pruned_program
      in (case base_flops s of None \<Rightarrow> Inl (AttributeError ''_base_flops'')
          | Some b \<Rightarrow>
         (case py_sub (PInt 1) (pruned_flops s) of Inl e \<Rightarrow> Inl e
          | Inr d \<Rightarrow>
         (case py_mul (PInt b) d of Inl e \<Rightarrow> Inl e
          | Inr bound \<Rightarrow> py_int_lt f bound)))))"

text \<open>
  \<^verbatim>\<open>_restore\<close>: for each key of the backup dict, the variable of that name is looked
  up in the scope (\<^verbatim>\<open>find_var\<close> gives \<^verbatim>\<open>None\<close> for an unknown name, and
  \<^verbatim>\<open>None.get_tensor()\<close> raises) and its tensor is set to the dict's value for the key.
  The scope is returned as it is when the loop ends or raises.
\<close>

fun restore_keys ::
  "(string \<times> 't) list \<Rightarrow> string list \<Rightarrow> (string \<rightharpoonup> 't) \<Rightarrow> (string \<rightharpoonup> 't) \<times> error option" where
  "restore_keys backup [] sc = (sc, None)"
| "restore_keys backup (param_name # ks) sc =
     (case sc param_name of
        None \<Rightarrow> (sc, Some (AttributeError ''get_tensor''))
      | Some param_t \<Rightarrow>
        (case map_of backup param_name of
           None \<Rightarrow> (sc, Some (KeyError param_name))
         | Some v \<Rightarrow> restore_keys backup ks (sc(param_name \<mapsto> v))))"

definition restore ::
  "('p, 't, 'pl, 'c) autopruner \<Rightarrow> (string \<rightharpoonup> 't) \<Rightarrow> (string \<rightharpoonup> 't) \<times> error option" where
  "restore s sc = restore_keys (param_backup s) (map fst (param_backup s)) sc"

text \<open>\<^verbatim>\<open>_next_ratios\<close>: the tokens of the client, decoded.\<close>

definition next_ratios ::
  "('p, 't, 'pl, 'c) env \<Rightarrow> ('p, 't, 'pl, 'c) autopruner
   \<Rightarrow> ('p, 't, 'pl, 'c) autopruner \<times> (error + pyfloat list)" where
  "next_ratios E s =
     (case next_tokens E (controller_client s) of
        (tokens, c) \<Rightarrow> (s\<lparr>controller_client := c\<rparr>, tokens2ratios tokens))"

text \<open>\<^verbatim>\<open>prune\<close>: returns the object after the call and the pruned program, or the error.\<close>

definition prune ::
  "('p, 't, 'pl, 'c) env \<Rightarrow> ('p, 't, 'pl, 'c) autopruner \<Rightarrow> 'p
   \<Rightarrow> ('p, 't, 'pl, 'c) autopruner \<times> (error + 'p)" where
  "prune E s prog =
     (case next_ratios E s of
        (s1, Inl e) \<Rightarrow> (s1, Inl e)
      | (s1, Inr ratios) \<Rightarrow>
        (let s2 = s1\<lparr>current_ratios := Some ratios\<rparr> in
         (case pruner_prune E prog (scope s2) (params s2) ratios (place s2) (param_backup s2) of
            (pruned_program, sc, backup) \<Rightarrow>
              (s2\<lparr>scope := sc, param_backup := backup\<rparr>, Inr pruned_program))))"

text \<open>\<^verbatim>\<open>reward\<close>: returns the object after the call and the error raised, if any.\<close>

definition reward ::
  "('p, 't, 'pl, 'c) env \<Rightarrow> ('p, 't, 'pl, 'c) autopruner \<Rightarrow> pyval
   \<Rightarrow> ('p, 't, 'pl, 'c) autopruner \<times> error option" where
  "reward E s score =
     (case restore s (scope s) of
        (sc, Some e) \<Rightarrow> (s\<lparr>scope := sc\<rparr>, Some e)
      | (sc, None) \<Rightarrow>
        (let s1 = s\<lparr>scope := sc, param_backup := []\<rparr> in
         (case current_ratios s1 of
            None \<Rightarrow> (s1, Some (AttributeError ''_current_ratios''))
          | Some ratios \<Rightarrow>
            (case ratios2tokens (PList (map PFloat ratios)) of
               Inl e \<Rightarrow> (s1, Some e)
             | Inr tokens \<Rightarrow>
               (s1\<lparr>controller_client := update E (controller_client s1) tokens score,
                   iter := iter s1 + 1\<rparr>, None)))))"

section \<open>Notions used to state the properties\<close>

text \<open>
  The encoding in the words of the specification, \<^verbatim>\<open>round(value / step)\<close>, with
  Python's \<^verbatim>\<open>round\<close> (to the nearest int, ties to even); it is compared with
  \<open>ratio2token\<close> below.
\<close>

fun py_round :: "pyfloat \<Rightarrow> error + int" where
  "py_round (Finite q) = Inr (round_half_even q)"
| "py_round PosInf = Inl OverflowError"
| "py_round NegInf = Inl OverflowError"
| "py_round NaN = Inl ValueError"

definition ratio_to_token_spec :: "pyval \<Rightarrow> error + int" where
  "ratio_to_token_spec ratio =
     (case py_truediv_float ratio (Finite STEP) of Inl e \<Rightarrow> Inl e | Inr x \<Rightarrow> py_round x)"

text \<open>An int or a finite float of magnitude at most \<open>2^1000\<close>: its quotient by the step is finite.\<close>

fun bounded_number :: "pyval \<Rightarrow> bool" where
  "bounded_number (PInt i) = (\<bar>i\<bar> \<le> 2 ^ 1000)"
| "bounded_number (PFloat (Finite q)) = (\<bar>q\<bar> \<le> 2 ^ 1000)"
| "bounded_number v = False"


section \<open>An example configuration\<close>

text \<open>
  A concrete environment on which the theorems below are instantiated: a program is
  represented by its FLOPs count, pruning halves it, the client keeps the list of the
  updates it has sent, and the server hands out the token vector \<open>[29]\<close>.  The arguments
  are the defaults of the constructor, with one parameter and an initial ratio; the
  fractions are the floats of the literals \<^verbatim>\<open>0.85\<close> and \<^verbatim>\<open>0.9\<close>.
\<close>

definition example_env :: "(int, int, unit, (int list \<times> pyval) list) env" where
  "example_env = \<lparr>flops = (\<lambda>p. p),
     pruner_prune_graph = (\<lambda>p sc ps rs pl. p div 2),
     pruner_prune = (\<lambda>p sc ps rs pl bk. (p div 2, sc, bk)),
     host_ip = ''10.0.0.7'',
     server_ip = (\<lambda>s. fst (cs_address s)),
     server_port = (\<lambda>s. snd (cs_address s)),
     mk_client = (\<lambda>ip port k. []),
     next_tokens = (\<lambda>c. ([29], c)),
     update = (\<lambda>c tokens score. c @ [(tokens, score)])\<rparr>"

definition example_args :: "(int, int, unit) init_args" where
  "example_args = \<lparr>arg_program = 1000, arg_scope = [''conv1_weights'' \<mapsto> 7], arg_place = (),
     arg_params = [''conv1_weights''],
     arg_init_ratios = PList [PFloat (Finite (1 / 2))],
     arg_pruned_flops = PFloat (Finite (1 / 2)),
     arg_pruned_latency = PNone,
     arg_server_addr = (PStr [], PInt 0),
     arg_init_temperature = PInt 100,
     arg_reduce_rate = PFloat (Finite (7656119366529843 / 9007199254740992)),
     arg_max_try_number = PInt 300,
     arg_max_client_num = PInt 10,
     arg_search_steps = PInt 300,
     arg_max_ratios = PList [PFloat (Finite (8106479329266893 / 9007199254740992))],
     arg_min_ratios = PList [PInt 0],
     arg_key = ''auto_pruner'',
     arg_is_server = True\<rparr>"

text \<open>
  An object in the middle of a trial: \<^verbatim>\<open>prune\<close> has decoded the ratio \<open>0.5\<close>, and the
  pruner has zeroed the parameter and recorded its tensor \<open>7\<close> in the backup.
\<close>

definition example_pruner :: "(int, int, unit, (int list \<times> pyval) list) autopruner" where
  "example_pruner = \<lparr>program = 1000, scope = [''conv1_weights'' \<mapsto> 0], place = (),
     params = [''conv1_weights''],
     init_ratios = PList [PFloat (Finite (1 / 2))],
     pruned_flops = PFloat (Finite (1 / 2)),
     pruned_latency = PNone,
     reduce_rate = PFloat (Finite (7656119366529843 / 9007199254740992)),
     init_temperature = PInt 100,
     max_try_number = PInt 300,
     is_server = True,
     range_table = ([0], [90]),
     base_flops = Some 1000,
     controller_server = \<lparr>cs_controller = \<lparr>sa_range_table = ([0], [90]),
         sa_reduce_rate = PFloat (Finite (7656119366529843 / 9007199254740992)),
         sa_init_temperature = PInt 100, sa_max_try_number = PInt 300,
         sa_init_tokens = [50]\<rparr>,
       cs_address = (PStr ''10.0.0.7'', PInt 0), cs_max_client_num = PInt 10,
       cs_search_steps = PInt 300, cs_key = ''auto_pruner'', cs_started = True\<rparr>,
     controller_client = [],
     iter = 0,
     param_backup = [(''conv1_weights'', 7)],
     current_ratios = Some [Finite (1 / 2)]\<rparr>"


definition example_ratio_env :: "(int, int, unit, (int list \<times> pyval) list) env" where
  "example_ratio_env = example_env\<lparr>pruner_prune_graph :=
     (\<lambda>p sc ps rs pl. case rs of [Finite r] \<Rightarrow> \<lfloor>of_int p * (1 - r)\<rfloor> | _ \<Rightarrow> p)\<rparr>"

section \<open>Properties of the rounding\<close>

lemma pow2_powi: "pow2 k = 2 powi k"
  by (simp add: pow2_def power_int_def power_one_over inverse_eq_divide)

lemma pow2_pos: "0 < pow2 k"
  by (simp add: pow2_powi)

lemma pow2_add: "pow2 (a + b) = pow2 a * pow2 b"
  by (simp add: pow2_powi power_int_add)

lemma pow2_less_cancel: "pow2 a < pow2 b \<Longrightarrow> a < b"
proof (rule ccontr)
  assume lt: "pow2 a < pow2 b" and "\<not> a < b"
  then have "b \<le> a" by simp
  then have "pow2 b \<le> pow2 a"
    unfolding pow2_powi by (intro power_int_increasing) auto
  with lt show False by simp
qed

lemma int_pow2_le: "0 \<le> k \<Longrightarrow> 2 ^ nat k \<le> (n::int) \<Longrightarrow> pow2 k \<le> of_int n"
proof -
  assume k: "0 \<le> k" and "2 ^ nat k \<le> n"
  then have "(of_int (2 ^ nat k) :: rat) \<le> of_int n" by (simp only: of_int_le_iff)
  then show ?thesis using k by (simp add: pow2_def)
qed

lemma int_pow2_less: "0 \<le> k \<Longrightarrow> (n::int) < 2 ^ nat k \<Longrightarrow> of_int n < pow2 k"
proof -
  assume k: "0 \<le> k" and "n < 2 ^ nat k"
  then have "(of_int n :: rat) < of_int (2 ^ nat k)" by (simp only: of_int_less_iff)
  then show ?thesis using k by (simp add: pow2_def)
qed

lemma ilog2_bounds:
  assumes "0 < a"
  shows "pow2 (ilog2 a) \<le> a \<and> a < pow2 (ilog2 a + 1)"
proof -
  obtain n d where nd: "quotient_of a = (n, d)" by (cases "quotient_of a")
  then have d: "0 < d" and a: "a = of_int n / of_int d"
    using quotient_of_denom_pos quotient_of_div by auto
  from assms a d have n: "0 < n"
    by (simp add: zero_less_divide_iff)
  define k where "k = bitlen n - bitlen d"
  have bn: "2 ^ nat (bitlen n - 1) \<le> n" "n < 2 ^ nat (bitlen n)"
    using bitlen_bounds [OF n] by auto
  have bd: "2 ^ nat (bitlen d - 1) \<le> d" "d < 2 ^ nat (bitlen d)"
    using bitlen_bounds [OF d] by auto
  have n1: "1 \<le> bitlen n" using n bitlen_eq_zero_iff [of n] bitlen_nonneg [of n] by linarith
  have d1: "1 \<le> bitlen d" using d bitlen_eq_zero_iff [of d] bitlen_nonneg [of d] by linarith
  have rn: "pow2 (bitlen n - 1) \<le> of_int n" "of_int n < pow2 (bitlen n)"
    using int_pow2_le [OF _ bn(1)] int_pow2_less [OF _ bn(2)] n1 by simp_all
  have rd: "pow2 (bitlen d - 1) \<le> of_int d" "of_int d < pow2 (bitlen d)"
    using int_pow2_le [OF _ bd(1)] int_pow2_less [OF _ bd(2)] d1 by simp_all
  have dpos: "(0::rat) < of_int d" using d by simp
  have lo: "pow2 (k - 1) \<le> a"
  proof -
    have "pow2 (k - 1) * of_int d \<le> pow2 (k - 1) * pow2 (bitlen d)"
      using rd(2) pow2_pos [of "k - 1"] by (simp add: less_imp_le)
    also have "\<dots> = pow2 (bitlen n - 1)"
      by (simp add: k_def flip: pow2_add)
    also have "\<dots> \<le> of_int n" by (rule rn(1))
    finally show ?thesis using dpos by (simp add: a pos_le_divide_eq)
  qed
  have hi: "a < pow2 (k + 1)"
  proof -
    have "of_int n < pow2 (bitlen n)" by (rule rn(2))
    also have "\<dots> = pow2 (k + 1) * pow2 (bitlen d - 1)"
      by (simp add: k_def flip: pow2_add)
    also have "\<dots> \<le> pow2 (k + 1) * of_int d"
      using rd(1) pow2_pos [of "k + 1"] by simp
    finally show ?thesis using dpos by (simp add: a pos_divide_less_eq)
  qed
  show ?thesis
  proof (cases "pow2 k \<le> a")
    case True
    then have "ilog2 a = k" by (simp add: ilog2_def nd k_def Let_def)
    with True hi show ?thesis by simp
  next
    case False
    then have "ilog2 a = k - 1" by (simp add: ilog2_def nd k_def Let_def)
    with False lo show ?thesis by simp
  qed
qed

lemma ilog2_unique:
  assumes "0 < a" "pow2 k \<le> a" "a < pow2 (k + 1)"
  shows "ilog2 a = k"
proof -
  from ilog2_bounds [OF assms(1)]
  have b: "pow2 (ilog2 a) \<le> a" "a < pow2 (ilog2 a + 1)" by auto
  have "pow2 k < pow2 (ilog2 a + 1)" using assms(2) b(2) by simp
  then have 1: "k < ilog2 a + 1" by (rule pow2_less_cancel)
  have "pow2 (ilog2 a) < pow2 (k + 1)" using assms(3) b(1) by simp
  then have 2: "ilog2 a < k + 1" by (rule pow2_less_cancel)
  from 1 2 show ?thesis by simp
qed

lemma round_half_even_error: "\<bar>of_int (round_half_even x) - x\<bar> \<le> 1 / 2"
proof -
  have "of_int \<lfloor>x\<rfloor> \<le> x" "x < of_int \<lfloor>x\<rfloor> + 1" by linarith+
  then show ?thesis
    unfolding round_half_even_def Let_def by (simp add: abs_if) linarith
qed

lemma round_half_even_unique:
  assumes "\<bar>x - of_int m\<bar> < 1 / 2"
  shows "round_half_even x = m"
proof -
  have f: "of_int \<lfloor>x\<rfloor> \<le> x" "x < of_int \<lfloor>x\<rfloor> + 1" by linarith+
  consider "\<lfloor>x\<rfloor> = m" | "\<lfloor>x\<rfloor> = m - 1"
    using assms f by (auto simp: abs_if split: if_splits) linarith+
  then show ?thesis
  proof cases
    case 1
    then have "x - of_int \<lfloor>x\<rfloor> < 1 / 2" using assms by (simp add: abs_if split: if_splits)
    then show ?thesis using 1 by (simp add: round_half_even_def Let_def)
  next
    case 2
    then have "1 / 2 < x - of_int \<lfloor>x\<rfloor>" using assms by (simp add: abs_if split: if_splits)
    then show ?thesis using 2 by (simp add: round_half_even_def Let_def)
  qed
qed

lemma round_double_pos_eval:
  assumes q: "0 < q" and lo: "pow2 k \<le> q" and hi: "q < pow2 (k + 1)"
    and e: "e = max k (- 1022) - 52"
    and m: "\<bar>q / pow2 e - of_int m\<bar> < 1 / 2"
    and fin: "of_int m * pow2 e < 2 ^ 1024"
  shows "round_double q = Finite (of_int m * pow2 e)"
proof -
  have k: "ilog2 q = k" using q lo hi by (rule ilog2_unique)
  have r: "round_half_even (q / pow2 e) = m" using m by (rule round_half_even_unique)
  have a: "\<bar>q\<bar> = q" using q by simp
  show ?thesis
    unfolding round_double_def Let_def a k e [symmetric] r
    using q fin by simp
qed

lemma round_double_neg: "round_double (- q) = (case round_double q of
    Finite r \<Rightarrow> Finite (- r) | PosInf \<Rightarrow> NegInf | NegInf \<Rightarrow> PosInf | NaN \<Rightarrow> NaN)"
  by (cases "q = 0"; cases "q < 0") (auto simp: round_double_def Let_def)

lemma round_double_finite:
  assumes "\<bar>q\<bar> < 2 ^ 1023"
  shows "\<exists>r. round_double q = Finite r \<and> \<bar>r - q\<bar> \<le> \<bar>q\<bar> / 2 ^ 53 + 1 / 2 ^ 1075"
proof (cases "q = 0")
  case True
  then show ?thesis by (simp add: round_double_def)
next
  case False
  define a where "a = \<bar>q\<bar>"
  have apos: "0 < a" using False by (simp add: a_def)
  define k where "k = ilog2 a"
  define e where "e = max k (- 1022) - 52"
  define m where "m = round_half_even (a / pow2 e)"
  define r where "r = of_int m * pow2 e"
  have kb: "pow2 k \<le> a" using ilog2_bounds [OF apos] by (simp add: k_def)
  have "\<bar>of_int m - a / pow2 e\<bar> \<le> 1 / 2"
    unfolding m_def by (rule round_half_even_error)
  then have "\<bar>of_int m - a / pow2 e\<bar> * pow2 e \<le> 1 / 2 * pow2 e"
    using pow2_pos [of e] by (intro mult_right_mono) auto
  also have "\<bar>of_int m - a / pow2 e\<bar> * pow2 e = \<bar>r - a\<bar>"
  proof -
    have "(of_int m - a / pow2 e) * pow2 e = r - a"
      using pow2_pos [of e] by (simp add: r_def left_diff_distrib)
    then have "\<bar>r - a\<bar> = \<bar>of_int m - a / pow2 e\<bar> * \<bar>pow2 e\<bar>"
      by (simp only: abs_mult [symmetric])
    then show ?thesis using pow2_pos [of e] by simp
  qed
  finally have err: "\<bar>r - a\<bar> \<le> pow2 e / 2" by simp
  have pe: "pow2 e / 2 \<le> a / 2 ^ 53 + 1 / 2 ^ 1075"
  proof (cases "- 1022 \<le> k")
    case True
    then have "e + 53 = k + 1" by (simp add: e_def)
    then have "pow2 e * pow2 53 = pow2 k * 2" 
      by (metis pow2_add pow2_powi power_int_1_right)
    then have "pow2 e / 2 = pow2 k / 2 ^ 53" by (simp add: pow2_def field_simps)
    also have "\<dots> \<le> a / 2 ^ 53" using kb by (simp add: divide_right_mono)
    finally show ?thesis by simp
  next
    case False
    then have "e = - 1074" by (simp add: e_def)
    then have "pow2 e / 2 = 1 / 2 ^ 1075" by (simp add: pow2_def)
    then show ?thesis using apos by simp
  qed
  have bound: "\<bar>r - a\<bar> \<le> a / 2 ^ 53 + 1 / 2 ^ 1075" using err pe by linarith
  have "r \<le> a + a / 2 ^ 53 + 1 / 2 ^ 1075" using bound by (simp add: abs_if split: if_splits)
  also have "\<dots> < 2 ^ 1023 + 2 ^ 1023 / 2 ^ 53 + 1 / 2 ^ 1075"
    using assms by (simp add: a_def add_strict_mono divide_strict_right_mono)
  also have "\<dots> < (2 ^ 1024 :: rat)" by simp
  finally have fin: "\<not> 2 ^ 1024 \<le> r" by simp
  have rd: "round_double q = Finite (if q < 0 then - r else r)"
    using False fin unfolding round_double_def Let_def a_def [symmetric] k_def [symmetric]
      e_def [symmetric] m_def [symmetric] r_def [symmetric] by simp
  show ?thesis
  proof (cases "q < 0")
    case True
    then have "a = - q" by (simp add: a_def)
    with bound rd True show ?thesis by (simp add: abs_if split: if_splits)
  next
    case False
    then have "a = q" by (simp add: a_def)
    with bound rd False show ?thesis by simp
  qed
qed

lemma STEP_pos: "0 < STEP"
  by (simp add: STEP_def)

lemma py_int_nonneg: "0 \<le> r \<Longrightarrow> of_int t \<le> r \<Longrightarrow> r < of_int t + 1 \<Longrightarrow> py_int (Finite r) = Inr t"
  by (simp add: floor_unique)

lemma ratio2token_float_eval:
  assumes "0 < v" and "pow2 k \<le> v / STEP" and "v / STEP < pow2 (k + 1)"
    and "e = max k (- 1022) - 52"
    and "\<bar>v / STEP / pow2 e - of_int m\<bar> < 1 / 2"
    and "of_int m * pow2 e < 2 ^ 1024"
    and "0 \<le> t" and "of_int t \<le> of_int m * pow2 e" and "of_int m * pow2 e < of_int t + 1"
  shows "ratio2token (PFloat (Finite v)) = Inr t"
proof -
  have q: "0 < v / STEP" using assms(1) STEP_pos by simp
  have rd: "round_double (v / STEP) = Finite (of_int m * pow2 e)"
    using q assms(2-6) by (rule round_double_pos_eval)
  have nn: "(0::rat) \<le> of_int m * pow2 e" using assms(7,8) by (meson of_int_0_le_iff order_trans)
  have "py_int (Finite (of_int m * pow2 e)) = Inr t"
    using nn assms(8,9) by (rule py_int_nonneg)
  then show ?thesis
    using STEP_pos by (simp add: ratio2token_def rd)
qed

lemma int_to_float_exact:
  assumes "\<bar>i\<bar> < 2 ^ 53"
  shows "int_to_float i = Inr (Finite (of_int i))"
proof -
  have pos: "int_to_float j = Inr (Finite (of_int j))" if j: "0 < j" "j < 2 ^ 53" for j :: int
  proof -
    define k where "k = ilog2 (of_int j)"
    have jr: "(0::rat) < of_int j" using j by simp
    have kb: "pow2 k \<le> of_int j" "of_int j < pow2 (k + 1)"
      using ilog2_bounds [OF jr] by (simp_all add: k_def)
    have "(of_int j :: rat) < 2 ^ 53" using j(2)
      by (metis of_int_less_iff of_int_numeral of_int_power)
    then have "pow2 k < pow2 53" using kb(1) by (simp add: pow2_def)
    then have k53: "k < 53" by (rule pow2_less_cancel)
    have "(1::rat) \<le> of_int j" using j(1) by (simp add: int_one_le_iff_zero_less)
    then have "pow2 0 < pow2 (k + 1)" using kb(2) by (simp add: pow2_def)
    then have k0: "0 \<le> k" using pow2_less_cancel by fastforce
    define m where "m = j * 2 ^ nat (52 - k)"
    have e: "k - 52 = max k (- 1022) - 52" using k0 by simp
    have "pow2 (k - 52) * pow2 (52 - k) = 1"
      using pow2_add [of "k - 52" "52 - k"] by (simp add: pow2_def)
    moreover have p: "pow2 (52 - k) = 2 ^ nat (52 - k)" using k53 by (simp add: pow2_def)
    ultimately have inv: "pow2 (k - 52) * 2 ^ nat (52 - k) = 1" by simp
    have mq: "of_int m * pow2 (k - 52) = of_int j"
      using inv by (simp add: m_def mult.assoc mult.commute)
    have "of_int j / pow2 (k - 52) = of_int m"
      using mq pow2_pos [of "k - 52"] by (simp add: field_simps)
    then have m: "\<bar>of_int j / pow2 (k - 52) - of_int m\<bar> < 1 / 2" by simp
    have fin: "of_int m * pow2 (k - 52) < 2 ^ 1024"
      unfolding mq using \<open>(of_int j :: rat) < 2 ^ 53\<close>
      by (rule less_trans) simp
    have "round_double (of_int j) = Finite (of_int m * pow2 (k - 52))"
      using jr kb e m fin by (rule round_double_pos_eval)
    then show ?thesis by (simp add: int_to_float_def mq)
  qed
  consider "i = 0" | "0 < i" | "i < 0" by linarith
  then show ?thesis
  proof cases
    case 1
    then show ?thesis by (simp add: int_to_float_def round_double_def)
  next
    case 2
    then show ?thesis using pos [of i] assms by simp
  next
    case 3
    then have "int_to_float (- i) = Inr (Finite (of_int (- i)))"
      using pos [of "- i"] assms by simp
    then have "round_double (of_int (- i)) = Finite (of_int (- i))"
      by (auto simp: int_to_float_def split: pyfloat.splits)
    then have "round_double (- (- of_int i)) = Finite (of_int i)"
      unfolding round_double_neg [of "- of_int i"] by simp
    then show ?thesis by (simp add: int_to_float_def)
  qed
qed

lemma token2ratio_eval:
  assumes "0 < t" and "t < 2 ^ 53"
    and "pow2 k \<le> of_int t * STEP" and "of_int t * STEP < pow2 (k + 1)"
    and "e = max k (- 1022) - 52"
    and "\<bar>of_int t * STEP / pow2 e - of_int m\<bar> < 1 / 2"
    and "of_int m * pow2 e < 2 ^ 1024"
  shows "token2ratio t = Inr (Finite (of_int m * pow2 e))"
proof -
  have i: "int_to_float t = Inr (Finite (of_int t))"
    using assms(1,2) by (intro int_to_float_exact) simp
  have q: "0 < of_int t * STEP" using assms(1) STEP_pos by simp
  have "round_double (of_int t * STEP) = Finite (of_int m * pow2 e)"
    using q assms(3-7) by (rule round_double_pos_eval)
  then show ?thesis by (simp add: token2ratio_def i)
qed

section \<open>Decimal literals\<close>

text \<open>
  The floats that the decimal literals of the source and of the examples denote: a
  literal is the decimal fraction rounded to binary64.  The last one is also the value of
  \<^verbatim>\<open>29 * 0.01\<close>.
\<close>

lemma literal_0_01: "round_double (1 / 100) = Finite STEP"
proof -
  have "round_double (1 / 100) = Finite (of_int 5764607523034235 * pow2 (- 59))"
    by (rule round_double_pos_eval [where k = "- 7"]) (simp_all add: pow2_def)
  then show ?thesis by (simp add: pow2_def STEP_def)
qed

lemma literal_0_9: "round_double (9 / 10) = Finite (8106479329266893 / 9007199254740992)"
proof -
  have "round_double (9 / 10) = Finite (of_int 8106479329266893 * pow2 (- 53))"
    by (rule round_double_pos_eval [where k = "- 1"]) (simp_all add: pow2_def)
  then show ?thesis by (simp add: pow2_def)
qed

lemma literal_0_30: "round_double (3 / 10) = Finite (5404319552844595 / 18014398509481984)"
proof -
  have "round_double (3 / 10) = Finite (of_int 5404319552844595 * pow2 (- 54))"
    by (rule round_double_pos_eval [where k = "- 2"]) (simp_all add: pow2_def)
  then show ?thesis by (simp add: pow2_def)
qed

lemma literal_0_1: "round_double (1 / 10) = Finite (3602879701896397 / 36028797018963968)"
proof -
  have "round_double (1 / 10) = Finite (of_int 7205759403792794 * pow2 (- 56))"
    by (rule round_double_pos_eval [where k = "- 4"]) (simp_all add: pow2_def)
  then show ?thesis by (simp add: pow2_def)
qed

lemma literal_0_85: "round_double (85 / 100) = Finite (7656119366529843 / 9007199254740992)"
proof -
  have "round_double (85 / 100) = Finite (of_int 7656119366529843 * pow2 (- 53))"
    by (rule round_double_pos_eval [where k = "- 1"]) (simp_all add: pow2_def)
  then show ?thesis by (simp add: pow2_def)
qed

lemma literal_0_29: "round_double (29 / 100) = Finite (5224175567749775 / 18014398509481984)"
proof -
  have "round_double (29 / 100) = Finite (of_int 5224175567749775 * pow2 (- 54))"
    by (rule round_double_pos_eval [where k = "- 2"]) (simp_all add: pow2_def)
  then show ?thesis by (simp add: pow2_def)
qed

lemma t2r_29: "token2ratio 29 = Inr (Finite (5224175567749775 / 18014398509481984))"
  using token2ratio_eval [of 29 "- 2" "- 54" 5224175567749775]
  by (simp add: STEP_def pow2_def)

lemma r2t_029: "ratio2token (PFloat (Finite (5224175567749775 / 18014398509481984))) = Inr 28"
  using ratio2token_float_eval [of "5224175567749775 / 18014398509481984" 4 "- 48" 8162774324609023 28]
  by (simp add: STEP_def pow2_def)

section \<open>The constructor\<close>

lemma r2t_int0: "ratio2token (PInt 0) = Inr 0"
  by (simp add: ratio2token_def int_to_float_exact STEP_pos less_imp_neq [OF STEP_pos, symmetric] round_double_def)

lemma r2t_half: "ratio2token (PFloat (Finite (1 / 2))) = Inr 50"
  using ratio2token_float_eval [of "1 / 2" 5 "- 47" 7036874417766400 50]
  by (simp add: STEP_def pow2_def)

lemma r2t_09: "ratio2token (PFloat (Finite (8106479329266893 / 9007199254740992))) = Inr 90"
  using ratio2token_float_eval [of "8106479329266893 / 9007199254740992" 6 "- 46" 6333186975989760 90]
  by (simp add: STEP_def pow2_def)

lemma default_range_table:
  "get_range_table (PList [PInt 0]) (PList [PFloat (Finite (8106479329266893 / 9007199254740992))])
     = Inr ([0], [90])"
  by (simp add: get_range_table_def r2t_int0 r2t_09)

lemma resolve_latency: "resolve_name ''latency'' = Inl (NameError ''latency'')"
  by (simp add: resolve_name_def module_names_def)

lemma resolve_program: "resolve_name ''_program'' = Inl (NameError ''_program'')"
  by (simp add: resolve_name_def module_names_def)

lemma example_init_ok: "\<exists>s. AutoPruner_init example_env example_args = Inr s"
  unfolding AutoPruner_init_def Let_def
  by (simp add: example_args_def default_range_table r2t_half)

text \<open>
  C8.  \<^verbatim>\<open>_get_init_ratios\<close> is a stub whose call yields \<^verbatim>\<open>None\<close>, from which no token
  vector can be encoded, and a construction with \<^verbatim>\<open>init_ratios=None\<close> never yields an
  object: it fails, at the latest with the \<^verbatim>\<open>NameError\<close> for \<^verbatim>\<open>_program\<close> that the
  evaluation of the stub's arguments raises.
\<close>

theorem init_ratios_none_fails:
  assumes "arg_init_ratios a = PNone"
  shows "get_init_ratios (arg_program a) (arg_params a) (arg_pruned_flops a) (arg_pruned_latency a) = PNone
    \<and> ratios2tokens PNone = Inl TypeError
    \<and> (\<exists>e. AutoPruner_init E a = Inl e)
    \<and> AutoPruner_init E a =
        (case get_range_table (arg_min_ratios a) (arg_max_ratios a) of
           Inl e \<Rightarrow> Inl e
         | Inr rt \<Rightarrow> if truthy (arg_pruned_latency a) then Inl (NameError ''latency'')
                     else Inl (NameError ''_program''))"
  using assms unfolding AutoPruner_init_def Let_def call_get_init_ratios_def
  by (simp add: get_init_ratios_def resolve_latency resolve_program split: sum.splits)

theorem init_ratios_none_fails_witness:
  "arg_init_ratios (example_args\<lparr>arg_init_ratios := PNone\<rparr>) = PNone
   \<and> AutoPruner_init example_env (example_args\<lparr>arg_init_ratios := PNone\<rparr>)
       = Inl (NameError ''_program'')"
  using init_ratios_none_fails [of "example_args\<lparr>arg_init_ratios := PNone\<rparr>" example_env]
  by (simp add: example_args_def default_range_table)

text \<open>
  C9.  As stated the claim fails: with a truthy \<^verbatim>\<open>pruned_latency\<close> and the scalar int
  bound \<^verbatim>\<open>min_ratios=0\<close>, the construction fails in \<^verbatim>\<open>_get_range_table\<close> with an
  \<^verbatim>\<open>AssertionError\<close>, before \<^verbatim>\<open>latency\<close> is looked up.
\<close>

theorem latency_name_error_counterexample:
  "truthy (PFloat (Finite (1 / 2))) \<and>
   AutoPruner_init example_env
     (example_args\<lparr>arg_pruned_latency := PFloat (Finite (1 / 2)), arg_min_ratios := PInt 0\<rparr>)
     = Inl AssertionError"
  by (simp add: AutoPruner_init_def example_args_def get_range_table_def)

text \<open>
  C9, amended.  No name \<^verbatim>\<open>latency\<close> is bound in the module, and a construction with a
  truthy \<^verbatim>\<open>pruned_latency\<close> always fails: with the error of the range-table
  construction when that fails, and otherwise with the \<^verbatim>\<open>NameError\<close> for
  \<^verbatim>\<open>latency\<close>.
\<close>

theorem latency_always_fails:
  assumes "truthy (arg_pruned_latency a)"
  shows "''latency'' \<notin> set module_names
    \<and> (\<exists>e. AutoPruner_init E a = Inl e)
    \<and> AutoPruner_init E a =
        (case get_range_table (arg_min_ratios a) (arg_max_ratios a) of
           Inl e \<Rightarrow> Inl e
         | Inr rt \<Rightarrow> Inl (NameError ''latency''))"
  using assms unfolding AutoPruner_init_def Let_def
  by (simp add: resolve_latency module_names_def split: sum.splits)

theorem latency_always_fails_witness:
  "truthy (arg_pruned_latency (example_args\<lparr>arg_pruned_latency := PFloat (Finite (1 / 2))\<rparr>))
   \<and> AutoPruner_init example_env (example_args\<lparr>arg_pruned_latency := PFloat (Finite (1 / 2))\<rparr>)
       = Inl (NameError ''latency'')"
  using latency_always_fails
    [of "example_args\<lparr>arg_pruned_latency := PFloat (Finite (1 / 2))\<rparr>" example_env]
  by (simp add: example_args_def default_range_table)

text \<open>
  C7.  The address given to \<^verbatim>\<open>ControllerServer\<close> by a construction that succeeds: a host
  that is \<^verbatim>\<open>None\<close> or the empty string is replaced by the address \<^verbatim>\<open>_get_host_ip\<close>
  resolves, any other host is passed unchanged, and the port is passed unchanged.
\<close>

theorem empty_host_resolved:
  assumes "AutoPruner_init E a = Inr s"
  shows "cs_address (controller_server s) =
     (if fst (arg_server_addr a) = PNone \<or> fst (arg_server_addr a) = PStr ''''
      then PStr (host_ip E) else fst (arg_server_addr a), snd (arg_server_addr a))"
  using assms unfolding AutoPruner_init_def Let_def get_host_ip_def
  by (auto split: sum.splits if_splits)

theorem empty_host_resolved_witness:
  "\<exists>s. AutoPruner_init example_env example_args = Inr s \<and>
       fst (arg_server_addr example_args) = PStr '''' \<and>
       cs_address (controller_server s) = (PStr ''10.0.0.7'', PInt 0)"
proof -
  obtain s where s: "AutoPruner_init example_env example_args = Inr s"
    using example_init_ok by blast
  from empty_host_resolved [OF s] show ?thesis
    using s by (simp add: example_args_def example_env_def)
qed

section \<open>Restoring and reporting\<close>




lemma init_backup_empty: "AutoPruner_init E a = Inr s \<Longrightarrow> param_backup s = []"
  unfolding AutoPruner_init_def Let_def by (auto split: sum.splits if_splits)



section \<open>The feasibility predicate\<close>

lemma each_token2ratio:
  "each token2ratio ts = Inr rs \<Longrightarrow>
   list_all2 (\<lambda>t r. \<exists>x. round_double (of_int t) = Finite x \<and> r = round_double (x * STEP)) ts rs"
proof (induction ts arbitrary: rs)
  case Nil
  then show ?case by simp
next
  case (Cons t ts)
  from Cons.prems obtain r rs' where r: "token2ratio t = Inr r"
    and rs': "each token2ratio ts = Inr rs'" and rs: "rs = r # rs'"
    by (auto split: sum.splits)
  from r have "\<exists>x. round_double (of_int t) = Finite x \<and> r = round_double (x * STEP)"
    by (auto simp: token2ratio_def int_to_float_def split: pyfloat.splits)
  with Cons.IH [OF rs'] rs show ?case by simp
qed

lemma computed_bound_error:
  fixes B c d q :: rat
  assumes B: "0 \<le> B" "B < 2 ^ 53" and c: "0 \<le> c"
    and d: "\<bar>d - c\<bar> \<le> \<bar>c\<bar> / 2 ^ 53 + 1 / 2 ^ 1075"
    and q: "\<bar>q - B * d\<bar> \<le> \<bar>B * d\<bar> / 2 ^ 53 + 1 / 2 ^ 1075"
  shows "\<bar>q - B * c\<bar> \<le> B * c / 2 ^ 51 + 1 / 2 ^ 1000"
proof -
  define X where "X = B * c"
  have X: "0 \<le> X" unfolding X_def using B(1) c by simp
  have ac: "\<bar>c\<bar> = c" using c by simp
  have d': "\<bar>d - c\<bar> \<le> c / 2 ^ 53 + 1 / 2 ^ 1075" using d ac by simp
  have "B * \<bar>d - c\<bar> \<le> B * (c / 2 ^ 53 + 1 / 2 ^ 1075)"
    using d' B(1) by (rule mult_left_mono)
  moreover have "\<bar>B * d - B * c\<bar> = B * \<bar>d - c\<bar>"
    using B(1) by (simp add: abs_mult flip: right_diff_distrib)
  ultimately have e1: "\<bar>B * d - X\<bar> \<le> X / 2 ^ 53 + B / 2 ^ 1075"
    by (simp add: X_def algebra_simps)
  have "\<bar>B * d\<bar> \<le> \<bar>B * d - X\<bar> + \<bar>X\<bar>"
    using abs_triangle_ineq [of "B * d - X" X] by simp
  with e1 X have bd: "\<bar>B * d\<bar> \<le> X + X / 2 ^ 53 + B / 2 ^ 1075" by simp
  have "\<bar>B * d\<bar> / 2 ^ 53 \<le> (X + X / 2 ^ 53 + B / 2 ^ 1075) / 2 ^ 53"
    using bd by (rule divide_right_mono) simp
  with q have e2: "\<bar>q - B * d\<bar> \<le> (X + X / 2 ^ 53 + B / 2 ^ 1075) / 2 ^ 53 + 1 / 2 ^ 1075"
    by linarith
  have "\<bar>q - X\<bar> \<le> \<bar>q - B * d\<bar> + \<bar>B * d - X\<bar>"
    using abs_triangle_ineq [of "q - B * d" "B * d - X"] by simp
  with e1 e2 have "\<bar>q - X\<bar> \<le> (X + X / 2 ^ 53 + B / 2 ^ 1075) / 2 ^ 53 + 1 / 2 ^ 1075
      + (X / 2 ^ 53 + B / 2 ^ 1075)" by linarith
  also have "\<dots> \<le> X / 2 ^ 51 + 1 / 2 ^ 1000"
    using X B by (simp add: field_simps)
  finally show ?thesis by (simp add: X_def)
qed


lemma round_double_eval:
  assumes "0 < q" and "pow2 k \<le> q" and "q < pow2 (k + 1)"
    and "e = max k (- 1022) - 52"
    and "\<bar>q / pow2 e - of_int m\<bar> < 1 / 2"
    and "of_int m * pow2 e < 2 ^ 1024"
    and "r = of_int m * pow2 e"
  shows "round_double q = Finite r"
  unfolding assms(7) using assms(1-6) by (rule round_double_pos_eval)

lemma round_half_even_tie:
  assumes "\<bar>x - of_int m\<bar> = 1 / 2" and "even m"
  shows "round_half_even x = m"
proof -
  have f: "of_int \<lfloor>x\<rfloor> \<le> x" "x < of_int \<lfloor>x\<rfloor> + 1" by linarith+
  consider "x = of_int m + 1 / 2" | "x = of_int m - 1 / 2"
    using assms(1) by (auto simp: abs_if split: if_splits)
  then show ?thesis
  proof cases
    case 1
    then have "\<lfloor>x\<rfloor> = m" by (intro floor_unique) simp_all
    then show ?thesis using 1 assms(2) by (simp add: round_half_even_def Let_def)
  next
    case 2
    then have fl: "\<lfloor>x\<rfloor> = m - 1" by (intro floor_unique) simp_all
    then have "x - of_int \<lfloor>x\<rfloor> = 1 / 2" using 2 by simp
    then show ?thesis using fl assms(2) by (simp add: round_half_even_def Let_def)
  qed
qed

lemma round_double_tie_eval:
  assumes q: "0 < q" and lo: "pow2 k \<le> q" and hi: "q < pow2 (k + 1)"
    and e: "e = max k (- 1022) - 52"
    and m: "\<bar>q / pow2 e - of_int m\<bar> = 1 / 2" "even m"
    and fin: "of_int m * pow2 e < 2 ^ 1024"
    and r: "r = of_int m * pow2 e"
  shows "round_double q = Finite r"
proof -
  have k: "ilog2 q = k" using q lo hi by (rule ilog2_unique)
  have rh: "round_half_even (q / pow2 e) = m" using m by (rule round_half_even_tie)
  have a: "\<bar>q\<bar> = q" using q by simp
  show ?thesis
    unfolding round_double_def Let_def a k e [symmetric] rh r
    using q fin by simp
qed

lemma py_sub_07: "py_sub (PInt 1) (PFloat (Finite (3152519739159347 / 4503599627370496)))
    = Inr (PFloat (Finite (1351079888211149 / 4503599627370496)))"
  apply (simp add: int_to_float_exact)
  apply (rule round_double_eval [where k = "- 2" and e = "- 54" and m = 5404319552844596])
        apply (simp_all add: pow2_def)
  done

lemma py_mul_07: "py_mul (PInt 1000) (PFloat (Finite (1351079888211149 / 4503599627370496)))
    = Inr (PFloat (Finite (5277655813324801 / 17592186044416)))"
  apply (simp add: int_to_float_exact)
  apply (rule round_double_eval [where k = 8 and e = "- 44" and m = 5277655813324801])
        apply (simp_all add: pow2_def)
  done

lemma py_sub_03: "py_sub (PInt 1) (PFloat (Finite (5404319552844595 / 18014398509481984)))
    = Inr (PFloat (Finite (3152519739159347 / 4503599627370496)))"
  apply (simp add: int_to_float_exact)
  apply (rule round_double_tie_eval [where k = "- 1" and e = "- 53" and m = 6305039478318694])
         apply (simp_all add: pow2_def)
  done

lemma py_mul_03: "py_mul (PInt 1000) (PFloat (Finite (3152519739159347 / 4503599627370496)))
    = Inr (PFloat (Finite 700))"
  apply (simp add: int_to_float_exact)
  apply (rule round_double_eval [where k = 9 and e = "- 43" and m = 6157265115545600])
        apply (simp_all add: pow2_def)
  done

lemma t2r_70: "token2ratio 70 = Inr (Finite (6305039478318695 / 9007199254740992))"
proof -
  have "token2ratio 70 = Inr (Finite (of_int 6305039478318695 * pow2 (- 53)))"
    by (rule token2ratio_eval [where k = "- 1"]) (simp_all add: STEP_def pow2_def)
  then show ?thesis by (simp add: pow2_def)
qed

text \<open>
  C10.  As stated the claim fails, since the bound is computed in double precision.
  With \<^verbatim>\<open>pruned_flops = 0.7\<close> and 1000 base FLOPs, a candidate of exactly 300 FLOPs,
  the target, is accepted: the bound computed is 300.00000000000006.  With
  \<^verbatim>\<open>pruned_flops = 0.3\<close>, a candidate of 700 FLOPs is rejected although 700 is strictly
  less than the product of 1000 and \<open>1 - 0.3\<close> (the float \<open>0.3\<close> lies below three
  tenths): the bound computed is 700.0.
\<close>

theorem constrain_func_strict_counterexample:
  "constrain_func (example_env\<lparr>pruner_prune_graph := (\<lambda>p sc ps rs pl. 300)\<rparr>)
      (example_pruner\<lparr>pruned_flops := PFloat (Finite (3152519739159347 / 4503599627370496))\<rparr>)
      [29] = Inr True
   \<and> (300 :: rat) = 1000 * (1 - 7 / 10)
   \<and> round_double (7 / 10) = Finite (3152519739159347 / 4503599627370496)
   \<and> constrain_func (example_env\<lparr>pruner_prune_graph := (\<lambda>p sc ps rs pl. 700)\<rparr>)
      (example_pruner\<lparr>pruned_flops := PFloat (Finite (5404319552844595 / 18014398509481984))\<rparr>)
      [29] = Inr False
   \<and> (700 :: rat) < 1000 * (1 - 5404319552844595 / 18014398509481984)"
proof -
  have l: "round_double (7 / 10) = Finite (3152519739159347 / 4503599627370496)"
    by (rule round_double_eval [where k = "- 1" and e = "- 53" and m = 6305039478318694])
      (simp_all add: pow2_def)
  have a: "constrain_func (example_env\<lparr>pruner_prune_graph := (\<lambda>p sc ps rs pl. 300)\<rparr>)
      (example_pruner\<lparr>pruned_flops := PFloat (Finite (3152519739159347 / 4503599627370496))\<rparr>)
      [29] = Inr True"
    by (simp add: constrain_func_def tokens2ratios_def t2r_29 example_pruner_def example_env_def
        py_sub_07 py_mul_07 del: py_sub.simps py_mul.simps)
  have b: "constrain_func (example_env\<lparr>pruner_prune_graph := (\<lambda>p sc ps rs pl. 700)\<rparr>)
      (example_pruner\<lparr>pruned_flops := PFloat (Finite (5404319552844595 / 18014398509481984))\<rparr>)
      [29] = Inr False"
    by (simp add: constrain_func_def tokens2ratios_def t2r_29 example_pruner_def example_env_def
        py_sub_03 py_mul_03 del: py_sub.simps py_mul.simps)
  show ?thesis using l a b by simp
qed

text \<open>
  C10, amended.  For \<^verbatim>\<open>pruned_flops\<close> a float \<open>p\<close> between 0 and 1 and base FLOPs
  below \<open>2^53\<close>: when \<^verbatim>\<open>_constrain_func\<close> returns, the ratios given to the pruner are
  the tokens times the step, each product rounded to a float; the bound is the product of
  the base FLOPs and the float of \<open>1 - p\<close>, rounded to a float, and so lies within
  \<open>base * (1 - p) / 2^51 + 2^-1000\<close> of the product \<open>base * (1 - p)\<close>; and the value
  returned is the exact strict comparison of the FLOPs of the pruned program with that
  bound, so that a candidate whose FLOPs equal the bound is rejected.
\<close>

theorem constrain_func_strict:
  assumes res: "constrain_func E s tokens = Inr b"
    and p: "pruned_flops s = PFloat (Finite p)" "0 \<le> p" "p \<le> 1"
    and base: "base_flops s = Some base" "0 \<le> base" "base < 2 ^ 53"
  shows "\<exists>ratios d q.
     list_all2 (\<lambda>t r. \<exists>x. round_double (of_int t) = Finite x \<and> r = round_double (x * STEP))
       tokens ratios
     \<and> round_double (1 - p) = Finite d
     \<and> round_double (of_int base * d) = Finite q
     \<and> \<bar>q - of_int base * (1 - p)\<bar> \<le> of_int base * (1 - p) / 2 ^ 51 + 1 / 2 ^ 1000
     \<and> (b \<longleftrightarrow>
          of_int (flops E (pruner_prune_graph E (program s) (scope s) (params s) ratios (place s)))
            < q)
     \<and> (of_int (flops E (pruner_prune_graph E (program s) (scope s) (params s) ratios (place s)))
            = q \<longrightarrow> \<not> b)"
proof -
  from res obtain ratios where r: "tokens2ratios tokens = Inr ratios"
    by (auto simp: constrain_func_def split: sum.splits)
  then have la: "list_all2 (\<lambda>t r. \<exists>x. round_double (of_int t) = Finite x
      \<and> r = round_double (x * STEP)) tokens ratios"
    unfolding tokens2ratios_def by (rule each_token2ratio)
  define c where "c = 1 - p"
  have c: "0 \<le> c" "c \<le> 1" using p(2,3) by (simp_all add: c_def)
  then have "\<bar>c\<bar> < 2 ^ 1023" by simp
  from round_double_finite [OF this] obtain d where
    d: "round_double c = Finite d" and de: "\<bar>d - c\<bar> \<le> \<bar>c\<bar> / 2 ^ 53 + 1 / 2 ^ 1075" by blast
  have sub: "py_sub (PInt 1) (pruned_flops s) = Inr (PFloat (Finite d))"
    using d by (simp add: p(1) int_to_float_exact c_def)
  define B :: rat where "B = of_int base"
  have "(of_int base :: rat) < of_int (2 ^ 53)" using base(3) by (simp only: of_int_less_iff)
  then have B: "0 \<le> B" "B < 2 ^ 53" using base(2) by (simp_all add: B_def)
  have ab: "\<bar>base\<bar> < 2 ^ 53" using base(2,3) by simp
  have "\<bar>d\<bar> \<le> \<bar>d - c\<bar> + \<bar>c\<bar>" using abs_triangle_ineq [of "d - c" c] by simp
  with de c have db: "\<bar>d\<bar> \<le> 3" by simp
  have "\<bar>B * d\<bar> = B * \<bar>d\<bar>" using B(1) by (simp add: abs_mult)
  also have "\<dots> \<le> 2 ^ 53 * 3"
    using B db by (intro mult_mono) simp_all
  also have "\<dots> < (2 ^ 1023 :: rat)" by simp
  finally have "\<bar>B * d\<bar> < 2 ^ 1023" .
  from round_double_finite [OF this] obtain q where
    q: "round_double (B * d) = Finite q"
    and qe: "\<bar>q - B * d\<bar> \<le> \<bar>B * d\<bar> / 2 ^ 53 + 1 / 2 ^ 1075" by blast
  have mul: "py_mul (PInt base) (PFloat (Finite d)) = Inr (PFloat (Finite q))"
    using q by (simp add: int_to_float_exact [OF ab] B_def)
  have err: "\<bar>q - B * c\<bar> \<le> B * c / 2 ^ 51 + 1 / 2 ^ 1000"
    using B c(1) de qe by (rule computed_bound_error)
  define f where
    "f = flops E (pruner_prune_graph E (program s) (scope s) (params s) ratios (place s))"
  from res have "b \<longleftrightarrow> of_int f < q"
    by (simp add: constrain_func_def r base(1) sub mul Let_def f_def
        del: py_sub.simps py_mul.simps)
  then show ?thesis
    using la d q err unfolding c_def B_def f_def by auto
qed

theorem constrain_func_strict_witness:
  "constrain_func example_ratio_env
      (example_pruner\<lparr>pruned_flops := PFloat (Finite (3152519739159347 / 4503599627370496))\<rparr>)
      [70] = Inr True
   \<and> (0 :: rat) \<le> 3152519739159347 / 4503599627370496
   \<and> (3152519739159347 / 4503599627370496 :: rat) \<le> 1
   \<and> base_flops example_pruner = Some 1000 \<and> (0 :: int) \<le> 1000 \<and> (1000 :: int) < 2 ^ 53
   \<and> tokens2ratios [70] = Inr [Finite (6305039478318695 / 9007199254740992)]
   \<and> flops example_ratio_env (pruner_prune_graph example_ratio_env 1000 [''conv1_weights'' \<mapsto> 0]
        [''conv1_weights''] [Finite (6305039478318695 / 9007199254740992)] ()) = 299
   \<and> py_mul (PInt 1000) (PFloat (Finite (1351079888211149 / 4503599627370496)))
        = Inr (PFloat (Finite (5277655813324801 / 17592186044416)))
   \<and> constrain_func example_ratio_env
      (example_pruner\<lparr>pruned_flops := PFloat (Finite (3152519739159347 / 4503599627370496))\<rparr>)
      [29] = Inr False"
proof -
  let ?s = "example_pruner\<lparr>pruned_flops := PFloat (Finite (3152519739159347 / 4503599627370496))\<rparr>"
  have f70: "\<lfloor>1000 * (1 - 6305039478318695 / 9007199254740992) :: rat\<rfloor> = 299"
    by (rule floor_unique) simp_all
  have f29: "\<lfloor>1000 * (1 - 5224175567749775 / 18014398509481984) :: rat\<rfloor> = 710"
    by (rule floor_unique) simp_all
  have e: "constrain_func example_ratio_env ?s [70] = Inr True"
    using f70 by (simp add: constrain_func_def tokens2ratios_def t2r_70 example_pruner_def
        example_ratio_env_def example_env_def py_sub_07 py_mul_07
        del: py_sub.simps py_mul.simps)
  have e2: "constrain_func example_ratio_env ?s [29] = Inr False"
    using f29 by (simp add: constrain_func_def tokens2ratios_def t2r_29 example_pruner_def
        example_ratio_env_def example_env_def py_sub_07 py_mul_07
        del: py_sub.simps py_mul.simps)
  have h: "pruned_flops ?s = PFloat (Finite (3152519739159347 / 4503599627370496))"
    "(0 :: rat) \<le> 3152519739159347 / 4503599627370496"
    "(3152519739159347 / 4503599627370496 :: rat) \<le> 1"
    "base_flops ?s = Some 1000" "(0 :: int) \<le> 1000" "(1000 :: int) < 2 ^ 53"
    by (simp_all add: example_pruner_def)
  from constrain_func_strict [OF e h] e e2 f70 show ?thesis
    by (simp add: tokens2ratios_def t2r_70 py_mul_07 example_ratio_env_def example_env_def
        example_pruner_def del: py_mul.simps)
qed

section \<open>The encoding\<close>

lemma inverse_STEP: "1 / STEP < 101"
  by (simp add: STEP_def)

lemma quot_finite:
  assumes "\<bar>v\<bar> \<le> 2 ^ 1001"
  shows "\<exists>q. round_double (v / STEP) = Finite q
     \<and> \<bar>q - v / STEP\<bar> \<le> \<bar>v / STEP\<bar> / 2 ^ 53 + 1 / 2 ^ 1075"
proof -
  have "\<bar>v / STEP\<bar> = \<bar>v\<bar> / \<bar>STEP\<bar>" by (rule abs_divide)
  also have "\<dots> = \<bar>v\<bar> * (1 / STEP)" using STEP_pos by simp
  also have "\<dots> \<le> 2 ^ 1001 * (1 / STEP)"
    using assms STEP_pos by (intro mult_right_mono) auto
  also have "\<dots> < 2 ^ 1001 * 101"
    using inverse_STEP by (intro mult_strict_left_mono) auto
  also have "\<dots> < (2 ^ 1023 :: rat)" by simp
  finally show ?thesis by (rule round_double_finite)
qed

lemma ratio2token_float_total:
  assumes "\<bar>v\<bar> \<le> 2 ^ 1001"
  shows "\<exists>t. ratio2token (PFloat (Finite v)) = Inr t"
proof -
  from quot_finite [OF assms] obtain q where "round_double (v / STEP) = Finite q" by blast
  then show ?thesis using STEP_pos by (simp add: ratio2token_def)
qed

lemma int_to_float_total:
  assumes "\<bar>i\<bar> \<le> 2 ^ 1000"
  shows "\<exists>r. int_to_float i = Inr (Finite r) \<and> \<bar>r\<bar> \<le> 2 ^ 1001"
proof -
  have "(of_int \<bar>i\<bar> :: rat) \<le> of_int (2 ^ 1000)" using assms by (simp only: of_int_le_iff)
  then have b: "\<bar>of_int i :: rat\<bar> \<le> 2 ^ 1000" by simp
  then have "\<bar>of_int i :: rat\<bar> < 2 ^ 1023" by (rule le_less_trans) simp
  from round_double_finite [OF this] obtain r where
    r: "round_double (of_int i) = Finite r"
    and e: "\<bar>r - of_int i\<bar> \<le> \<bar>of_int i\<bar> / 2 ^ 53 + 1 / 2 ^ 1075" by blast
  have "\<bar>of_int i :: rat\<bar> / 2 ^ 53 \<le> 2 ^ 1000 / 2 ^ 53" using b by (simp add: divide_right_mono)
  with e b have "\<bar>r\<bar> \<le> 2 ^ 1000 + 2 ^ 1000 / 2 ^ 53 + 1 / 2 ^ 1075" by linarith
  also have "\<dots> \<le> (2 ^ 1001 :: rat)" by simp
  finally show ?thesis using r by (simp add: int_to_float_def)
qed

lemma ratio2token_total:
  assumes "bounded_number x"
  shows "\<exists>t. ratio2token x = Inr t"
proof (cases x)
  case (PInt i)
  with assms have "\<bar>i\<bar> \<le> 2 ^ 1000" by simp
  from int_to_float_total [OF this] obtain r where
    r: "int_to_float i = Inr (Finite r)" "\<bar>r\<bar> \<le> 2 ^ 1001" by blast
  from ratio2token_float_total [OF r(2)] show ?thesis
    using r(1) PInt by (simp add: ratio2token_def)
next
  case (PFloat y)
  with assms obtain q where q: "y = Finite q" "\<bar>q\<bar> \<le> 2 ^ 1000" by (cases y) auto
  have "(2 ^ 1000 :: rat) \<le> 2 ^ 1001" by simp
  with q(2) have "\<bar>q\<bar> \<le> 2 ^ 1001" by (rule order_trans)
  from ratio2token_float_total [OF this] show ?thesis using PFloat q by simp
qed (use assms in auto)

lemma each_total:
  "\<forall>x\<in>set xs. \<exists>y. f x = Inr y \<Longrightarrow> \<exists>ys. each f xs = Inr ys \<and> length ys = length xs"
  by (induction xs) auto

lemma each_length: "each f xs = Inr ys \<Longrightarrow> length ys = length xs"
  by (induction xs arbitrary: ys) (auto split: sum.splits)

lemma r2t_float0: "ratio2token (PFloat (Finite 0)) = Inr 0"
  using STEP_pos by (simp add: ratio2token_def round_double_def)

lemma r2t_03: "ratio2token (PFloat (Finite (5404319552844595 / 18014398509481984))) = Inr 30"
  using ratio2token_float_eval [of "5404319552844595 / 18014398509481984" 4 "- 48" 8444249301319680 30]
  by (simp add: STEP_def pow2_def)

lemma r2t_01: "ratio2token (PFloat (Finite (3602879701896397 / 36028797018963968))) = Inr 10"
  using ratio2token_float_eval [of "3602879701896397 / 36028797018963968" 3 "- 49" 5629499534213120 10]
  by (simp add: STEP_def pow2_def)

text \<open>
  C4.  As stated the claim fails: with the minimum bound \<open>0.9\<close> above the maximum bound
  \<open>0\<close>, \<^verbatim>\<open>_get_range_table\<close> returns the table \<open>([90], [0])\<close> and raises nothing.
\<close>

theorem invalid_bounds_counterexample:
  "get_range_table (PList [PFloat (Finite (8106479329266893 / 9007199254740992))]) (PList [PInt 0])
     = Inr ([90], [0])"
  by (simp add: get_range_table_def r2t_09 r2t_int0)

text \<open>
  C4, amended.  \<^verbatim>\<open>_get_range_table\<close> does not compare the bounds: for lists of ints
  and finite floats (of magnitude at most \<open>2^1000\<close>) it returns the two encoded lists,
  one token per element, whatever the order of the minimum and the maximum.
\<close>

theorem range_table_unordered:
  assumes "\<forall>x\<in>set mins. bounded_number x" and "\<forall>x\<in>set maxs. bounded_number x"
  shows "\<exists>lo hi. get_range_table (PList mins) (PList maxs) = Inr (lo, hi)
     \<and> each ratio2token mins = Inr lo \<and> each ratio2token maxs = Inr hi
     \<and> length lo = length mins \<and> length hi = length maxs"
proof -
  from assms(1) have "\<forall>x\<in>set mins. \<exists>y. ratio2token x = Inr y"
    using ratio2token_total by blast
  from each_total [OF this] obtain lo where
    lo: "each ratio2token mins = Inr lo" "length lo = length mins" by blast
  from assms(2) have "\<forall>x\<in>set maxs. \<exists>y. ratio2token x = Inr y"
    using ratio2token_total by blast
  from each_total [OF this] obtain hi where
    hi: "each ratio2token maxs = Inr hi" "length hi = length maxs" by blast
  from lo hi show ?thesis by (simp add: get_range_table_def)
qed

theorem range_table_unordered_witness:
  "bounded_number (PFloat (Finite (1 / 2)))
   \<and> bounded_number (PFloat (Finite (3602879701896397 / 36028797018963968)))
   \<and> get_range_table (PList [PFloat (Finite (1 / 2))])
        (PList [PFloat (Finite (3602879701896397 / 36028797018963968))]) = Inr ([50], [10])"
  using range_table_unordered [of "[PFloat (Finite (1 / 2))]"
      "[PFloat (Finite (3602879701896397 / 36028797018963968))]"]
  by (simp add: r2t_half r2t_01)

text \<open>
  C5.  As stated the claim fails: with two parameters and the scalar bounds \<open>0.0\<close> and
  \<open>0.9\<close>, the constructed object has the range table \<open>([0], [90])\<close>, of one entry a side.
\<close>

theorem scalar_broadcast_counterexample:
  "case AutoPruner_init example_env
      (example_args\<lparr>arg_params := [''conv1_weights'', ''conv2_weights''],
         arg_init_ratios := PList [PFloat (Finite (1 / 2)), PFloat (Finite (1 / 2))],
         arg_min_ratios := PFloat (Finite 0),
         arg_max_ratios := PFloat (Finite (8106479329266893 / 9007199254740992))\<rparr>) of
     Inl e \<Rightarrow> False
   | Inr s \<Rightarrow> length (params s) = 2 \<and> range_table s = ([0], [90])"
  by (simp add: AutoPruner_init_def Let_def example_args_def get_range_table_def
      r2t_float0 r2t_09 r2t_half)

text \<open>
  C5, amended.  \<^verbatim>\<open>_get_range_table\<close> wraps a scalar bound into a list of one element:
  the side of the table it gives has exactly one token, the encoded scalar, and a list
  bound gives one token per element of the list.  The number of parameters plays no part.
\<close>

theorem scalar_bound_single_entry:
  assumes "get_range_table mn mx = Inr (lo, hi)"
  shows "(\<forall>x. mn = PFloat x \<longrightarrow> (\<exists>t. ratio2token mn = Inr t \<and> lo = [t]))
     \<and> (\<forall>x. mx = PFloat x \<longrightarrow> (\<exists>t. ratio2token mx = Inr t \<and> hi = [t]))
     \<and> (\<forall>xs. mn = PList xs \<longrightarrow> length lo = length xs)
     \<and> (\<forall>xs. mx = PList xs \<longrightarrow> length hi = length xs)"
proof -
  from assms have lo: "ratios2tokens (as_list mn) = Inr lo" and hi: "ratios2tokens (as_list mx) = Inr hi"
    by (auto simp: get_range_table_def split: if_splits sum.splits)
  have "\<exists>t. ratio2token (PFloat x) = Inr t \<and> l = [t]"
    if "ratios2tokens (as_list (PFloat x)) = Inr l" for x l
    using that by (auto split: sum.splits)
  moreover have "length l = length xs" if "ratios2tokens (as_list (PList xs)) = Inr l" for xs l
    using that by (simp add: each_length)
  ultimately show ?thesis using lo hi by blast
qed

theorem scalar_bound_single_entry_witness:
  "get_range_table (PFloat (Finite 0)) (PFloat (Finite (8106479329266893 / 9007199254740992)))
     = Inr ([0], [90])
   \<and> ratio2token (PFloat (Finite 0)) = Inr 0
   \<and> ratio2token (PFloat (Finite (8106479329266893 / 9007199254740992))) = Inr 90"
proof -
  have e: "get_range_table (PFloat (Finite 0)) (PFloat (Finite (8106479329266893 / 9007199254740992)))
     = Inr ([0], [90])"
    by (simp add: get_range_table_def r2t_float0 r2t_09)
  from scalar_bound_single_entry [OF e] e show ?thesis by simp
qed

lemma quot_eval:
  assumes "0 < v" and "pow2 k \<le> v / STEP" and "v / STEP < pow2 (k + 1)"
    and "e = max k (- 1022) - 52"
    and "\<bar>v / STEP / pow2 e - of_int m\<bar> < 1 / 2"
    and "of_int m * pow2 e < 2 ^ 1024"
    and "r = of_int m * pow2 e"
  shows "py_truediv_float (PFloat (Finite v)) (Finite STEP) = Inr (Finite r)"
proof -
  have q: "0 < v / STEP" using assms(1) STEP_pos by simp
  have "round_double (v / STEP) = Finite (of_int m * pow2 e)"
    using q assms(2-6) by (rule round_double_pos_eval)
  then show ?thesis using STEP_pos assms(7) by simp
qed

lemma literal_0_58: "round_double (58 / 100) = Finite (5224175567749775 / 9007199254740992)"
proof -
  have "round_double (58 / 100) = Finite (of_int 5224175567749775 * pow2 (- 53))"
    by (rule round_double_pos_eval [where k = "- 1"]) (simp_all add: pow2_def)
  then show ?thesis by (simp add: pow2_def)
qed

lemma literal_0_59: "round_double (59 / 100) = Finite (5314247560297185 / 9007199254740992)"
proof -
  have "round_double (59 / 100) = Finite (of_int 5314247560297185 * pow2 (- 53))"
    by (rule round_double_pos_eval [where k = "- 1"]) (simp_all add: pow2_def)
  then show ?thesis by (simp add: pow2_def)
qed

lemma t2r_58: "token2ratio 58 = Inr (Finite (5224175567749775 / 9007199254740992))"
proof -
  have "token2ratio 58 = Inr (Finite (of_int 5224175567749775 * pow2 (- 53)))"
    by (rule token2ratio_eval [where k = "- 1"]) (simp_all add: STEP_def pow2_def)
  then show ?thesis by (simp add: pow2_def)
qed

lemma t2r_59: "token2ratio 59 = Inr (Finite (5314247560297185 / 9007199254740992))"
proof -
  have "token2ratio 59 = Inr (Finite (of_int 5314247560297185 * pow2 (- 53)))"
    by (rule token2ratio_eval [where k = "- 1"]) (simp_all add: STEP_def pow2_def)
  then show ?thesis by (simp add: pow2_def)
qed

lemma quot_059:
  "py_truediv_float (PFloat (Finite (5314247560297185 / 9007199254740992))) (Finite STEP)
     = Inr (Finite (8303511812964351 / 140737488355328))"
  by (rule quot_eval [where k = 5 and e = "- 47" and m = 8303511812964351])
    (simp_all add: STEP_def pow2_def)

lemma quot_058:
  "py_truediv_float (PFloat (Finite (5224175567749775 / 9007199254740992))) (Finite STEP)
     = Inr (Finite (8162774324609023 / 140737488355328))"
  by (rule quot_eval [where k = 5 and e = "- 47" and m = 8162774324609023])
    (simp_all add: STEP_def pow2_def)

lemma quot_030:
  "py_truediv_float (PFloat (Finite (5404319552844595 / 18014398509481984))) (Finite STEP)
     = Inr (Finite 30)"
  by (rule quot_eval [where k = 4 and e = "- 48" and m = 8444249301319680])
    (simp_all add: STEP_def pow2_def)

text \<open>
  C2.  The encoding of the float \<open>0.58\<close>, the decoding of the token 58: its quotient by
  the step is the float 57.99999999999999, which \<^verbatim>\<open>int\<close> truncates to 57, where
  \<^verbatim>\<open>round(value / step)\<close> is 58.  The scenario of the claim holds: the range table of
  \<^verbatim>\<open>min_ratios=[0]\<close>, \<^verbatim>\<open>max_ratios=[0.9]\<close> is \<open>([0], [90])\<close>, and \<open>0.30\<close> is encoded as
  30, by the code and by the rounding alike.
\<close>

theorem encode_truncates_quotient:
  "round_double (58 / 100) = Finite (5224175567749775 / 9007199254740992)
   \<and> ratio2token (PFloat (Finite (5224175567749775 / 9007199254740992))) = Inr 57
   \<and> ratio_to_token_spec (PFloat (Finite (5224175567749775 / 9007199254740992))) = Inr 58
   \<and> get_range_table (PList [PInt 0])
        (PList [PFloat (Finite (8106479329266893 / 9007199254740992))]) = Inr ([0], [90])
   \<and> ratio2token (PFloat (Finite (5404319552844595 / 18014398509481984))) = Inr 30
   \<and> ratio_to_token_spec (PFloat (Finite (5404319552844595 / 18014398509481984))) = Inr 30"
proof -
  have f: "\<lfloor>8162774324609023 / 140737488355328 :: rat\<rfloor> = 57"
    by (rule floor_unique) simp_all
  have r: "round_half_even (8162774324609023 / 140737488355328) = 58"
    by (rule round_half_even_unique) simp
  have r30: "round_half_even 30 = 30"
    using round_half_even_unique [of 30 30] by simp
  have c: "ratio2token (PFloat (Finite (5224175567749775 / 9007199254740992))) = Inr 57"
    unfolding ratio2token_def quot_058 by (simp add: f)
  have s: "ratio_to_token_spec (PFloat (Finite (5224175567749775 / 9007199254740992))) = Inr 58"
    unfolding ratio_to_token_spec_def quot_058 by (simp add: r)
  have s30: "ratio_to_token_spec (PFloat (Finite (5404319552844595 / 18014398509481984))) = Inr 30"
    unfolding ratio_to_token_spec_def quot_030 by (simp add: r30)
  show ?thesis
    by (intro conjI)
      (rule literal_0_58, rule c, rule s, rule default_range_table, rule r2t_03, rule s30)
qed

text \<open>
  C3.  The object at work on the example: the client hands out the tokens \<open>[29]\<close>,
  \<^verbatim>\<open>prune\<close> decodes them to the float \<open>0.29\<close>, and \<^verbatim>\<open>reward\<close> encodes that float again
  and reports the score for the tokens \<open>[28]\<close>.
\<close>

theorem reward_reports_other_tokens:
  "fst (next_tokens example_env (controller_client example_pruner)) = [29]
   \<and> (case prune example_env example_pruner 1000 of
        (s1, r1) \<Rightarrow>
          (case reward example_env s1 (PFloat (Finite 1)) of
             (s2, r2) \<Rightarrow> r1 = Inr 500 \<and> r2 = None
               \<and> current_ratios s1 = Some [Finite (5224175567749775 / 18014398509481984)]
               \<and> controller_client s2 = [([28], PFloat (Finite 1))]))"
  by (simp add: prune_def next_ratios_def reward_def restore_def tokens2ratios_def
      example_env_def example_pruner_def t2r_29 r2t_029)

section \<open>The round trip\<close>

text \<open>
  C1.  The round trip on the float \<open>0.59\<close>, which is the decoding of the token 59 and
  lies within the bounds \<open>[0, 0.9]\<close>: \<^verbatim>\<open>_ratios2tokens\<close> encodes it as 58, because the
  quotient by the step is the float 58.99999999999999 and \<^verbatim>\<open>int\<close> truncates it, and
  \<^verbatim>\<open>_tokens2ratios\<close> decodes 58 to \<open>0.58\<close>, a whole step away.  With the rounding of
  the specification the token is 59 and the round trip is exact.
\<close>

theorem round_trip_loses_step:
  "round_double (59 / 100) = Finite (5314247560297185 / 9007199254740992)
   \<and> (0 :: rat) \<le> 5314247560297185 / 9007199254740992
   \<and> (5314247560297185 / 9007199254740992 :: rat) \<le> 8106479329266893 / 9007199254740992
   \<and> ratio2token (PFloat (Finite (5314247560297185 / 9007199254740992))) = Inr 58
   \<and> token2ratio 58 = Inr (Finite (5224175567749775 / 9007199254740992))
   \<and> STEP / 2 < \<bar>5224175567749775 / 9007199254740992 - 5314247560297185 / 9007199254740992\<bar>
   \<and> ratio_to_token_spec (PFloat (Finite (5314247560297185 / 9007199254740992))) = Inr 59
   \<and> token2ratio 59 = Inr (Finite (5314247560297185 / 9007199254740992))"
proof -
  have f: "\<lfloor>8303511812964351 / 140737488355328 :: rat\<rfloor> = 58"
    by (rule floor_unique) simp_all
  have r: "round_half_even (8303511812964351 / 140737488355328) = 59"
    by (rule round_half_even_unique) simp
  have c: "ratio2token (PFloat (Finite (5314247560297185 / 9007199254740992))) = Inr 58"
    unfolding ratio2token_def quot_059 by (simp add: f)
  have s: "ratio_to_token_spec (PFloat (Finite (5314247560297185 / 9007199254740992))) = Inr 59"
    unfolding ratio_to_token_spec_def quot_059 by (simp add: r)
  have d: "STEP / 2 < \<bar>5224175567749775 / 9007199254740992 - 5314247560297185 / 9007199254740992\<bar>"
    by (simp add: STEP_def)
  show ?thesis
    by (intro conjI) (rule literal_0_59, simp, simp, rule c, rule t2r_58, rule d, rule s, rule t2r_59)
qed

end
